theory Spec2Isabelle
  imports Complex_Main
begin

section \<open>Common types\<close>

text \<open>
  Document identifiers (MongoDB ObjectIds) are opaque; they are modelled as natural
  numbers. Dates are milliseconds since the epoch, the value JavaScript's \<open>Date\<close>
  converts to in arithmetic and comparisons. JSON numbers are finite, so a number of a
  request body is a rational.
\<close>

type_synonym objectId = nat
type_synonym date = int

text \<open>
  A failed request: the HTTP status the handler sets and the \<open>message\<close> of its JSON
  body (\<open>res.status(code).json({ success: false, message })\<close>).
\<close>

datatype http_error = HttpError nat string

section \<open>Tasks (routes of \<open>/api/tasks\<close>)\<close>

text \<open>
  The Task schema itself is not among the sources; a task has the fields the route
  handlers read and write. \<open>status\<close> is one of the two values the list route
  accepts (\<open>['complete', 'incomplete']\<close>) and \<open>priority\<close> one of
  \<open>['low', 'medium', 'high']\<close>. \<open>progress\<close> is a JavaScript number.
\<close>

datatype task_status = Incomplete | Complete

datatype task_priority = Low | Medium | High

record task =
  userId :: objectId
  title :: string
  description :: string
  status :: task_status
  priority :: task_priority
  dueDate :: "date option"
  progress :: rat

text \<open>The collection maps the \<open>_id\<close> of a task to the document.\<close>

type_synonym task_store = "objectId \<rightharpoonup> task"

text \<open>\<open>Task.findOne({ _id: req.params.id, userId: req.user.userId })\<close>\<close>

definition findOne_task :: "task_store \<Rightarrow> objectId \<Rightarrow> objectId \<Rightarrow> task option" where
  "findOne_task store tid uid =
     (case store tid of
        None \<Rightarrow> None
      | Some t \<Rightarrow> if userId t = uid then Some t else None)"

definition InvalidProgress :: http_error where
  "InvalidProgress = HttpError 400 ''Progress must be between 0 and 100''"

definition TaskNotFound :: http_error where
  "TaskNotFound = HttpError 404 ''Task not found''"

subsection \<open>\<open>PATCH /api/tasks/:id/progress\<close>\<close>

text \<open>
  The status derivation of the handler, on the task whose progress has just been
  written:
  \<^verbatim>\<open>
    if (task.progress === 100) {
      task.status = 'complete';
    } else if (task.progress > 0 && task.status === 'complete') {
      task.status = 'incomplete';
    }
  \<close>
\<close>

definition derive_status :: "task \<Rightarrow> task" where
  "derive_status t =
     (if progress t = 100 then t\<lparr>status := Complete\<rparr>
      else if 0 < progress t \<and> status t = Complete then t\<lparr>status := Incomplete\<rparr>
      else t)"

text \<open>
  The handler. The body's \<open>progress\<close> is \<open>None\<close> when the field is undefined
  and \<open>Some p\<close> when it is the number \<open>p\<close>; a body whose \<open>progress\<close> is
  not a number is outside the model. The validation comes before the lookup;
  \<open>task.save()\<close> writes the document back under its \<open>_id\<close>.
\<close>

definition patch_progress ::
  "task_store \<Rightarrow> objectId \<Rightarrow> objectId \<Rightarrow> rat option \<Rightarrow> (http_error + task) \<times> task_store" where
  "patch_progress store uid tid body_progress =
     (case body_progress of
        None \<Rightarrow> (Inl InvalidProgress, store)
      | Some p \<Rightarrow>
          if p < 0 \<or> 100 < p then (Inl InvalidProgress, store)
          else
            (case findOne_task store tid uid of
               None \<Rightarrow> (Inl TaskNotFound, store)
             | Some t \<Rightarrow>
                 let updatedTask = derive_status (t\<lparr>progress := min (max p 0) 100\<rparr>)
                 in (Inr updatedTask, store(tid \<mapsto> updatedTask))))"

subsection \<open>\<open>PATCH /api/tasks/:id/status\<close>\<close>

text \<open>\<open>task.status = task.status === 'complete' ? 'incomplete' : 'complete'\<close>\<close>

definition toggle :: "task_status \<Rightarrow> task_status" where
  "toggle s = (if s = Complete then Incomplete else Complete)"

definition patch_status ::
  "task_store \<Rightarrow> objectId \<Rightarrow> objectId \<Rightarrow> (http_error + task) \<times> task_store" where
  "patch_status store uid tid =
     (case findOne_task store tid uid of
        None \<Rightarrow> (Inl TaskNotFound, store)
      | Some t \<Rightarrow>
          let updatedTask = t\<lparr>status := toggle (status t)\<rparr>
          in (Inr updatedTask, store(tid \<mapsto> updatedTask)))"

subsection \<open>\<open>PUT /api/tasks/:id\<close>\<close>

text \<open>
  \<open>String.prototype.trim\<close> on the ASCII white space characters (tab, line feed,
  vertical tab, form feed, carriage return, space).
\<close>

definition is_space :: "char \<Rightarrow> bool" where
  "is_space c = (c \<in> set [CHR 0x09, CHR 0x0A, CHR 0x0B, CHR 0x0C, CHR 0x0D, CHR '' ''])"

definition trim :: "string \<Rightarrow> string" where
  "trim s = rev (dropWhile is_space (rev (dropWhile is_space s)))"

text \<open>
  The request body: every field is \<open>None\<close> when it is undefined. A supplied
  \<open>dueDate\<close> is \<open>Some None\<close> when it is falsy and \<open>Some (Some d)\<close> when
  \<open>new Date(dueDate)\<close> is the date \<open>d\<close>.
\<close>

record task_update =
  upd_title :: "string option"
  upd_description :: "string option"
  upd_status :: "task_status option"
  upd_priority :: "task_priority option"
  upd_dueDate :: "date option option"
  upd_progress :: "rat option"

definition apply_update :: "task_update \<Rightarrow> task \<Rightarrow> task" where
  "apply_update body t0 =
     (let t1 = (case upd_title body of None \<Rightarrow> t0 | Some x \<Rightarrow> t0\<lparr>title := trim x\<rparr>);
          t2 = (case upd_description body of None \<Rightarrow> t1 | Some x \<Rightarrow> t1\<lparr>description := trim x\<rparr>);
          t3 = (case upd_status body of None \<Rightarrow> t2 | Some x \<Rightarrow> t2\<lparr>status := x\<rparr>);
          t4 = (case upd_priority body of None \<Rightarrow> t3 | Some x \<Rightarrow> t3\<lparr>priority := x\<rparr>);
          t5 = (case upd_dueDate body of None \<Rightarrow> t4 | Some x \<Rightarrow> t4\<lparr>dueDate := x\<rparr>);
          t6 = (case upd_progress body of None \<Rightarrow> t5
                | Some x \<Rightarrow> t5\<lparr>progress := min (max x 0) 100\<rparr>)
      in t6)"

definition put_task ::
  "task_store \<Rightarrow> objectId \<Rightarrow> objectId \<Rightarrow> task_update \<Rightarrow> (http_error + task) \<times> task_store" where
  "put_task store uid tid body =
     (case findOne_task store tid uid of
        None \<Rightarrow> (Inl TaskNotFound, store)
      | Some t \<Rightarrow>
          let updatedTask = apply_update body t
          in (Inr updatedTask, store(tid \<mapsto> updatedTask)))"

text \<open>A task used in the examples below: owned by user 7, complete at 100 percent.\<close>

definition done_task :: task where
  "done_task = \<lparr>userId = 7, title = ''report'', description = ''write it'',
     status = Complete, priority = Medium, dueDate = None, progress = 100\<rparr>"

definition open_task :: task where
  "open_task = \<lparr>userId = 7, title = ''report'', description = ''write it'',
     status = Incomplete, priority = Medium, dueDate = None, progress = 40\<rparr>"

section \<open>The user log (\<open>models/UserLog.js\<close>)\<close>

datatype log_role = User | Admin

datatype log_action = Login | Logout | Token_refresh | Failed_login

datatype log_status = Active | Expired | Logged_out

text \<open>
  A document of the \<open>UserLog\<close> collection. \<open>log_id\<close> is its \<open>_id\<close>;
  \<open>updatedAt\<close> is the field that the schema option \<open>timestamps: true\<close>
  maintains. A field that may be null or absent is an option.
\<close>

record userLog =
  log_id :: objectId
  log_userId :: objectId
  userName :: string
  email :: string
  role :: log_role
  action :: log_action
  loginTime :: "date option"
  logoutTime :: "date option"
  jwtTokenId :: "string option"
  ipAddress :: "string option"
  userAgent :: "string option"
  sessionDuration :: "int option"
  log_status :: log_status
  createdAt :: date
  updatedAt :: date

text \<open>The collection, in the store's natural order.\<close>

type_synonym ledger = "userLog list"

subsection \<open>\<open>createLogoutLog\<close>\<close>

text \<open>
  The filter of the \<open>findOne\<close>:
  \<open>{ userId, jwtTokenId, action: 'login', status: 'active' }\<close>.
\<close>

definition active_login :: "objectId \<Rightarrow> string \<Rightarrow> userLog \<Rightarrow> bool" where
  "active_login uid tok l =
     (log_userId l = uid \<and> jwtTokenId l = Some tok \<and> action l = Login \<and> log_status l = Active)"

text \<open>
  \<open>.sort({ createdAt: -1 })\<close> on a \<open>findOne\<close>: the document with the greatest
  \<open>createdAt\<close>; among equal ones the first in the store's order.
\<close>

fun most_recent :: "userLog list \<Rightarrow> userLog option" where
  "most_recent [] = None"
| "most_recent (l # ls) =
     (case most_recent ls of
        None \<Rightarrow> Some l
      | Some m \<Rightarrow> if createdAt l < createdAt m then Some m else Some l)"

text \<open>
  \<open>logoutTime - loginLog.loginTime\<close>: a date counts as its milliseconds and
  \<open>null\<close> as 0.
\<close>

definition date_ms :: "date option \<Rightarrow> int" where
  "date_ms d = (case d of None \<Rightarrow> 0 | Some t \<Rightarrow> t)"

text \<open>
  \<open>Math.round((logoutTime - loginLog.loginTime) / 60000)\<close>. \<open>Math.round\<close> is
  the nearest integer, a half going up, which is \<^const>\<open>round\<close>.
\<close>

definition session_minutes :: "date \<Rightarrow> date option \<Rightarrow> int" where
  "session_minutes logout login = round ((of_int (logout - date_ms login) :: rat) / 60000)"

text \<open>
  \<open>loginLog.save()\<close>: the document replaces the stored one of the same \<open>_id\<close>.
\<close>

definition save_log :: "userLog \<Rightarrow> ledger \<Rightarrow> ledger" where
  "save_log d logs = map (\<lambda>e. if log_id e = log_id d then d else e) logs"

text \<open>
  \<open>now\<close> is the value of \<open>new Date()\<close> in the call. The result is the closed
  document or \<open>None\<close> for \<open>null\<close>, with the collection after the call.
\<close>

definition createLogoutLog ::
  "date \<Rightarrow> objectId \<Rightarrow> string \<Rightarrow> ledger \<Rightarrow> userLog option \<times> ledger" where
  "createLogoutLog now uid tok logs =
     (case most_recent (filter (active_login uid tok) logs) of
        None \<Rightarrow> (None, logs)
      | Some loginLog \<Rightarrow>
          let closed = loginLog\<lparr>logoutTime := Some now,
                 sessionDuration := Some (session_minutes now (loginTime loginLog)),
                 log_status := Logged_out, updatedAt := now\<rparr>
          in (Some closed, save_log closed logs))"

subsection \<open>\<open>markTokenExpired\<close>\<close>

text \<open>
  \<open>updateMany({ jwtTokenId, status: 'active' }, { status: 'expired' })\<close>. The
  result is the number of documents modified, with the collection after the call.
\<close>

definition active_token :: "string \<Rightarrow> userLog \<Rightarrow> bool" where
  "active_token tok l = (jwtTokenId l = Some tok \<and> log_status l = Active)"

definition markTokenExpired :: "date \<Rightarrow> string \<Rightarrow> ledger \<Rightarrow> nat \<times> ledger" where
  "markTokenExpired now tok logs =
     (length (filter (active_token tok) logs),
      map (\<lambda>l. if active_token tok l then l\<lparr>log_status := Expired, updatedAt := now\<rparr> else l) logs)"

section \<open>The admin routes of the user log (\<open>routes/userLogRoutes.js\<close>)\<close>

subsection \<open>Filters and queries\<close>

text \<open>
  The filter parameters of a request (\<open>req.query\<close> of the list route,
  \<open>req.body.filters\<close> of the bulk delete). The handlers test each of them for
  truthiness: an undefined parameter and the empty string count as not given. A date
  parameter is \<open>None\<close> when it is falsy and \<open>Some d\<close> when \<open>new Date(...)\<close>
  of it is \<open>d\<close>.
\<close>

record log_filters =
  f_action :: "string option"
  f_role :: "string option"
  f_email :: "string option"
  f_startDate :: "date option"
  f_endDate :: "date option"

definition given :: "string option \<Rightarrow> string option" where
  "given s = (case s of None \<Rightarrow> None | Some x \<Rightarrow> if x = [] then None else Some x)"

text \<open>
  The query object handed to the store; a field that is \<open>None\<close> is absent from
  the object. \<open>q_ids\<close> is \<open>_id: { $in: ids }\<close>, \<open>q_email\<close> is
  \<open>email: { $regex: email, $options: 'i' }\<close>, \<open>q_gte\<close> and \<open>q_lte\<close> are
  \<open>createdAt.$gte\<close> and \<open>createdAt.$lte\<close>.
\<close>

record log_query =
  q_ids :: "objectId list option"
  q_action :: "string option"
  q_role :: "string option"
  q_email :: "string option"
  q_gte :: "date option"
  q_lte :: "date option"

definition empty_query :: log_query where
  "empty_query = \<lparr>q_ids = None, q_action = None, q_role = None, q_email = None,
     q_gte = None, q_lte = None\<rparr>"

definition build_query :: "log_filters \<Rightarrow> log_query" where
  "build_query f = empty_query\<lparr>q_action := given (f_action f), q_role := given (f_role f),
     q_email := given (f_email f), q_gte := f_startDate f, q_lte := f_endDate f\<rparr>"

fun action_name :: "log_action \<Rightarrow> string" where
  "action_name Login = ''login''"
| "action_name Logout = ''logout''"
| "action_name Token_refresh = ''token_refresh''"
| "action_name Failed_login = ''failed_login''"

fun role_name :: "log_role \<Rightarrow> string" where
  "role_name User = ''user''"
| "role_name Admin = ''admin''"

text \<open>
  Whether a document satisfies a query. The regular expression engine is the store's:
  \<open>rx pattern subject\<close> says whether the pattern matches the subject, ignoring
  case.
\<close>

definition matches :: "(string \<Rightarrow> string \<Rightarrow> bool) \<Rightarrow> log_query \<Rightarrow> userLog \<Rightarrow> bool" where
  "matches rx q l =
     ((case q_ids q of None \<Rightarrow> True | Some xs \<Rightarrow> log_id l \<in> set xs) \<and>
      (case q_action q of None \<Rightarrow> True | Some a \<Rightarrow> action_name (action l) = a) \<and>
      (case q_role q of None \<Rightarrow> True | Some r \<Rightarrow> role_name (role l) = r) \<and>
      (case q_email q of None \<Rightarrow> True | Some pat \<Rightarrow> rx pat (email l)) \<and>
      (case q_gte q of None \<Rightarrow> True | Some d \<Rightarrow> d \<le> createdAt l) \<and>
      (case q_lte q of None \<Rightarrow> True | Some d \<Rightarrow> createdAt l \<le> d))"

subsection \<open>\<open>DELETE /api/admin/user-logs\<close>\<close>

text \<open>\<open>UserLog.deleteMany(deleteQuery)\<close>: the \<open>deletedCount\<close> and what is left.\<close>

definition deleteMany ::
  "(string \<Rightarrow> string \<Rightarrow> bool) \<Rightarrow> log_query \<Rightarrow> ledger \<Rightarrow> nat \<times> ledger" where
  "deleteMany rx q logs =
     (length (filter (matches rx q) logs), filter (\<lambda>l. \<not> matches rx q l) logs)"

text \<open>
  The request body. \<open>ids\<close> is \<open>None\<close> when the field is falsy or not an array;
  \<open>filters\<close> is \<open>None\<close> when the field is falsy.
\<close>

record delete_body =
  ids :: "objectId list option"
  filters :: "log_filters option"

definition IdsOrFiltersRequired :: http_error where
  "IdsOrFiltersRequired = HttpError 400 ''Either ids array or filters object is required''"

definition delete_user_logs ::
  "(string \<Rightarrow> string \<Rightarrow> bool) \<Rightarrow> delete_body \<Rightarrow> ledger \<Rightarrow> (http_error + nat) \<times> ledger" where
  "delete_user_logs rx body logs =
     (case ids body of
        Some (x # xs) \<Rightarrow>
          (let result = deleteMany rx (empty_query\<lparr>q_ids := Some (x # xs)\<rparr>) logs
           in (Inr (fst result), snd result))
      | _ \<Rightarrow>
          (case filters body of
             Some f \<Rightarrow>
               (let result = deleteMany rx (build_query f) logs
                in (Inr (fst result), snd result))
           | None \<Rightarrow> (Inl IdsOrFiltersRequired, logs)))"

subsection \<open>\<open>GET /api/admin/user-logs\<close>\<close>

text \<open>
  A JavaScript number that is an integer, \<open>Infinity\<close> or \<open>NaN\<close>: the values
  \<open>Math.ceil(totalCount / limitNum)\<close> can take.
\<close>

datatype jsnum = Fin int | PosInfinity | NaN

definition ceil_div :: "nat \<Rightarrow> int \<Rightarrow> jsnum" where
  "ceil_div n d =
     (if d = 0 then (if n = 0 then NaN else PosInfinity)
      else Fin \<lceil>(of_nat n :: rat) / of_int d\<rceil>)"

text \<open>\<open>pageNum < totalPages\<close>\<close>

fun less_js :: "int \<Rightarrow> jsnum \<Rightarrow> bool" where
  "less_js p (Fin t) = (p < t)"
| "less_js p PosInfinity = True"
| "less_js p NaN = False"

record pagination =
  currentPage :: int
  totalPages :: jsnum
  totalCount :: nat
  limit :: int
  hasNextPage :: bool
  hasPrevPage :: bool

record logs_response =
  resp_data :: "userLog list"
  resp_pagination :: pagination

text \<open>
  \<open>find(query).sort(sortOptions).skip(skip).limit(limitNum)\<close>. \<open>key\<close> is the
  field that \<open>sortBy\<close> names and \<open>desc\<close> says whether \<open>sortOrder\<close> is
  \<open>'desc'\<close>. The store takes a limit of 0 as no limit and a negative limit as its
  absolute value; it refuses a negative skip, which the handler below turns into its
  status 500. \<open>populate\<close> and \<open>lean\<close> change neither the number nor the order of
  the documents and are left out.
\<close>

definition find_page ::
  "(userLog \<Rightarrow> 'k::linorder) \<Rightarrow> bool \<Rightarrow> int \<Rightarrow> int \<Rightarrow> userLog list \<Rightarrow> userLog list" where
  "find_page key desc skip limitNum found =
     (let sorted = (if desc then rev (sort_key key found) else sort_key key found);
          skipped = drop (nat skip) sorted
      in if limitNum = 0 then skipped else take (nat \<bar>limitNum\<bar>) skipped)"

definition LogsFailed :: http_error where
  "LogsFailed = HttpError 500 ''Failed to retrieve user logs''"

text \<open>
  The handler, with \<open>page_param\<close> and \<open>limit_param\<close> the integers that \<open>parseInt\<close> gives
  for the query's \<open>page\<close> and \<open>limit\<close>.
\<close>

definition get_user_logs ::
  "(string \<Rightarrow> string \<Rightarrow> bool) \<Rightarrow> (userLog \<Rightarrow> 'k::linorder) \<Rightarrow> bool \<Rightarrow> int \<Rightarrow> int \<Rightarrow>
     log_filters \<Rightarrow> ledger \<Rightarrow> http_error + logs_response" where
  "get_user_logs rx key desc page_param limit_param f logs =
     (let query = build_query f;
          pageNum = page_param;
          limitNum = limit_param;
          skip = (pageNum - 1) * limitNum
      in if skip < 0 then Inl LogsFailed
         else
           (let found = filter (matches rx query) logs;
                count = length found;
                pages = ceil_div count limitNum
            in Inr \<lparr>resp_data = find_page key desc skip limitNum found,
                 resp_pagination = \<lparr>currentPage = pageNum, totalPages = pages,
                   totalCount = count, limit = limitNum,
                   hasNextPage = less_js pageNum pages, hasPrevPage = (1 < pageNum)\<rparr>\<rparr>))"

subsection \<open>Example data\<close>

text \<open>
  Subject 1 logged in with credential \<open>c1\<close> at time 0 and, on a second device, with
  credential \<open>c2\<close> a minute later.
\<close>

definition login_c1 :: userLog where
  "login_c1 = \<lparr>log_id = 1, log_userId = 1, userName = ''ann'', email = ''ann@example.org'',
     role = User, action = Login, loginTime = Some 0, logoutTime = None,
     jwtTokenId = Some ''c1'', ipAddress = None, userAgent = None, sessionDuration = None,
     log_status = Active, createdAt = 0, updatedAt = 0\<rparr>"

definition login_c2 :: userLog where
  "login_c2 = login_c1\<lparr>log_id := 2, loginTime := Some 60000, jwtTokenId := Some ''c2'',
     createdAt := 60000, updatedAt := 60000\<rparr>"

definition two_devices :: ledger where
  "two_devices = [login_c1, login_c2]"

text \<open>A collection of 45 documents.\<close>

definition forty_five :: ledger where
  "forty_five = map (\<lambda>i. login_c1\<lparr>log_id := i\<rparr>) [0..<45]"

definition no_filters :: log_filters where
  "no_filters = \<lparr>f_action = None, f_role = None, f_email = None, f_startDate = None,
     f_endDate = None\<rparr>"

text \<open>A request body of the general update that supplies \<open>progress\<close> only.\<close>

definition progress_only :: "rat \<Rightarrow> task_update" where
  "progress_only p = \<lparr>upd_title = None, upd_description = None, upd_status = None,
     upd_priority = None, upd_dueDate = None, upd_progress = Some p\<rparr>"

text \<open>
  An engine for the examples: what the store's engine computes for a pattern without
  metacharacters, whether the subject contains the pattern, ignoring the case of ASCII
  letters.
\<close>

definition lower :: "char \<Rightarrow> char" where
  "lower c =
     (if (65::nat) \<le> of_char c \<and> of_char c \<le> (90::nat) then char_of (of_char c + (32::nat))
      else c)"

fun prefix_ci :: "string \<Rightarrow> string \<Rightarrow> bool" where
  "prefix_ci [] ys = True"
| "prefix_ci (x # xs) [] = False"
| "prefix_ci (x # xs) (y # ys) = (lower x = lower y \<and> prefix_ci xs ys)"

fun contains_ci :: "string \<Rightarrow> string \<Rightarrow> bool" where
  "contains_ci pat [] = (pat = [])"
| "contains_ci pat (y # ys) = (prefix_ci pat (y # ys) \<or> contains_ci pat ys)"

section \<open>Properties of the task routes\<close>

subsection \<open>The progress write\<close>

text \<open>
  What the progress route does with a value in range on a task the caller owns: the
  value is stored as it is, 100 makes the task complete, a value strictly between 0 and
  100 makes a complete task incomplete, and in every other case the status stays.
\<close>

lemma patch_progress_derivation:
  assumes "findOne_task store tid uid = Some t" and "0 \<le> p" and "p \<le> 100"
  shows "patch_progress store uid tid (Some p) =
    (let t' = t\<lparr>progress := p,
                 status := (if p = 100 then Complete
                            else if 0 < p \<and> status t = Complete then Incomplete
                            else status t)\<rparr>
     in (Inr t', store(tid \<mapsto> t')))"
  using assms by (simp add: patch_progress_def derive_status_def Let_def min_def max_def)

text \<open>
  Claim C1 says that a progress write of \<open>p\<close> on a task that was complete makes it
  incomplete for every \<open>p\<close> below 100, \<open>p = 0\<close> included. On a complete task at 100
  percent, writing 0 stores the progress 0 and leaves the status complete: the branch
  that resets the status asks for \<open>task.progress > 0\<close>.
\<close>

theorem patch_progress_zero_keeps_complete:
  "patch_progress [1 \<mapsto> done_task] 7 1 (Some 0) =
     (Inr (done_task\<lparr>progress := 0\<rparr>), [1 \<mapsto> done_task\<lparr>progress := 0\<rparr>]) \<and>
   status (done_task\<lparr>progress := 0\<rparr>) = Complete"
  by (simp add: patch_progress_def findOne_task_def derive_status_def done_task_def Let_def)

text \<open>
  Claim C3 says that every value that is not an integer in [0,100] is rejected. The
  value 50.5 is accepted and stored as it is.
\<close>

theorem patch_progress_accepts_fraction:
  "patch_progress [1 \<mapsto> open_task] 7 1 (Some (101 / 2)) =
     (Inr (open_task\<lparr>progress := 101 / 2\<rparr>), [1 \<mapsto> open_task\<lparr>progress := 101 / 2\<rparr>])"
  by (simp add: patch_progress_def findOne_task_def derive_status_def open_task_def Let_def)

text \<open>
  Claim C3, amended: a progress write whose value is below 0 or above 100, or is
  missing, fails with status 400 (\<open>InvalidProgress\<close>) and leaves the store, and so
  the task's progress and status, unchanged; nothing is clamped. A value in [0,100],
  integer or not, is not rejected: on a task the caller owns it is stored as it is.
\<close>

theorem patch_progress_rejects_out_of_range:
  "(p < 0 \<or> 100 < p \<longrightarrow>
      patch_progress store uid tid (Some p) = (Inl InvalidProgress, store)) \<and>
   patch_progress store uid tid None = (Inl InvalidProgress, store) \<and>
   (0 \<le> p \<and> p \<le> 100 \<and> findOne_task store tid uid = Some t \<longrightarrow>
      (\<exists>t'. patch_progress store uid tid (Some p) = (Inr t', store(tid \<mapsto> t')) \<and>
            progress t' = p))"
  by (auto simp add: patch_progress_def derive_status_def Let_def min_def max_def)

text \<open>
  The amended C3 at 150, at -1 and at 50.5, on a store that holds one task.
\<close>

theorem patch_progress_rejects_out_of_range_witness:
  "patch_progress [1 \<mapsto> open_task] 7 1 (Some 150) = (Inl InvalidProgress, [1 \<mapsto> open_task]) \<and>
   patch_progress [1 \<mapsto> open_task] 7 1 (Some (- 1)) = (Inl InvalidProgress, [1 \<mapsto> open_task]) \<and>
   (\<exists>t'. patch_progress [1 \<mapsto> open_task] 7 1 (Some (101 / 2)) =
       (Inr t', [1 \<mapsto> open_task, 1 \<mapsto> t']) \<and> progress t' = 101 / 2)"
  using patch_progress_rejects_out_of_range [of 150 "[1 \<mapsto> open_task]" 7 1]
    patch_progress_rejects_out_of_range [of "- 1" "[1 \<mapsto> open_task]" 7 1]
    patch_progress_rejects_out_of_range [of "101 / 2" "[1 \<mapsto> open_task]" 7 1 open_task]
  by (simp add: findOne_task_def open_task_def)

subsection \<open>The general update\<close>

text \<open>
  Claim C5 says that a progress written through the general update goes through the
  derivation of the progress route. On an incomplete task at 40 percent, the update
  that supplies progress 100 stores 100 and leaves the status incomplete, where the
  progress route makes the same task complete.
\<close>

theorem put_task_skips_derivation:
  "put_task [1 \<mapsto> open_task] 7 1 (progress_only 100) =
     (Inr (open_task\<lparr>progress := 100\<rparr>), [1 \<mapsto> open_task\<lparr>progress := 100\<rparr>]) \<and>
   status (open_task\<lparr>progress := 100\<rparr>) = Incomplete \<and>
   patch_progress [1 \<mapsto> open_task] 7 1 (Some 100) =
     (Inr (open_task\<lparr>progress := 100, status := Complete\<rparr>),
      [1 \<mapsto> open_task\<lparr>progress := 100, status := Complete\<rparr>])"
  by (simp add: put_task_def apply_update_def progress_only_def patch_progress_def
      findOne_task_def derive_status_def open_task_def Let_def)

subsection \<open>The manual toggle\<close>

text \<open>
  Claim C6: on a task the caller owns, the toggle route answers with the task whose
  status is flipped (complete to incomplete, incomplete to complete) and whose every
  other field, progress among them, is as before; it stores that task under the same
  id and touches no other task. Toggling again gives back the original task and the
  original store.
\<close>

theorem patch_status_toggles:
  assumes "findOne_task store tid uid = Some t"
  shows "\<exists>t'. patch_status store uid tid = (Inr t', store(tid \<mapsto> t')) \<and>
     status t' = (case status t of Complete \<Rightarrow> Incomplete | Incomplete \<Rightarrow> Complete) \<and>
     progress t' = progress t \<and> userId t' = userId t \<and> title t' = title t \<and>
     description t' = description t \<and> priority t' = priority t \<and> dueDate t' = dueDate t \<and>
     patch_status (store(tid \<mapsto> t')) uid tid = (Inr t, store)"
proof -
  from assms have st: "store tid = Some t" and own: "userId t = uid"
    by (auto simp: findOne_task_def split: option.splits if_splits)
  let ?t' = "t\<lparr>status := toggle (status t)\<rparr>"
  have first: "patch_status store uid tid = (Inr ?t', store(tid \<mapsto> ?t'))"
    using assms by (simp add: patch_status_def Let_def)
  have again: "?t'\<lparr>status := toggle (status ?t')\<rparr> = t"
    by (cases "status t") (simp_all add: toggle_def)
  have "findOne_task (store(tid \<mapsto> ?t')) tid uid = Some ?t'"
    using own by (simp add: findOne_task_def)
  then have second: "patch_status (store(tid \<mapsto> ?t')) uid tid = (Inr t, store)"
    using st again by (simp add: patch_status_def Let_def map_upd_triv)
  have flip: "status ?t' = (case status t of Complete \<Rightarrow> Incomplete | Incomplete \<Rightarrow> Complete)"
    by (cases "status t") (simp_all add: toggle_def)
  show ?thesis
    using first second flip by (intro exI [of _ ?t']) simp
qed

text \<open>Claim C6 on the complete task of user 7: toggled, it is incomplete at 100 percent.\<close>

theorem patch_status_toggles_witness:
  "findOne_task [1 \<mapsto> done_task] 1 7 = Some done_task \<and>
   (\<exists>t'. patch_status [1 \<mapsto> done_task] 7 1 = (Inr t', [1 \<mapsto> done_task, 1 \<mapsto> t']) \<and>
     status t' = Incomplete \<and> progress t' = 100 \<and>
     patch_status ([1 \<mapsto> done_task, 1 \<mapsto> t']) 7 1 = (Inr done_task, [1 \<mapsto> done_task]))"
proof -
  have h: "findOne_task [1 \<mapsto> done_task] 1 7 = Some done_task"
    by (simp add: findOne_task_def done_task_def)
  from patch_status_toggles [OF h] obtain t' where
    "patch_status [1 \<mapsto> done_task] 7 1 = (Inr t', [1 \<mapsto> done_task, 1 \<mapsto> t'])"
    "status t' = (case status done_task of Complete \<Rightarrow> Incomplete | Incomplete \<Rightarrow> Complete)"
    "progress t' = progress done_task"
    "patch_status ([1 \<mapsto> done_task, 1 \<mapsto> t']) 7 1 = (Inr done_task, [1 \<mapsto> done_task])"
    by blast
  then show ?thesis
    using h by (intro conjI exI [of _ t']) (simp_all add: done_task_def)
qed

section \<open>Properties of the user log\<close>

subsection \<open>Closing a session\<close>

text \<open>The document that \<open>findOne(...).sort({ createdAt: -1 })\<close> returns.\<close>

lemma most_recent_None: "most_recent xs = None \<longleftrightarrow> xs = []"
  by (cases xs) (auto split: option.splits)

lemma most_recent_Some:
  "most_recent xs = Some l \<Longrightarrow> l \<in> set xs \<and> (\<forall>m\<in>set xs. createdAt m \<le> createdAt l)"
proof (induction xs arbitrary: l)
  case Nil
  then show ?case by simp
next
  case (Cons x xs)
  show ?case
  proof (cases "most_recent xs")
    case None
    then have "xs = []" by (simp add: most_recent_None)
    with Cons.prems show ?thesis by simp
  next
    case (Some m)
    from Cons.IH [OF Some] have m: "m \<in> set xs" "\<forall>k\<in>set xs. createdAt k \<le> createdAt m"
      by simp_all
    show ?thesis
    proof (cases "createdAt x < createdAt m")
      case True
      with Some Cons.prems have "l = m" by simp
      with m True show ?thesis by auto
    next
      case False
      with Some Cons.prems have "l = x" by simp
      with m False show ?thesis by fastforce
    qed
  qed
qed

text \<open>Saving a document keeps every document of another \<open>_id\<close> in its place.\<close>

lemma length_save_log: "length (save_log d logs) = length logs"
  by (simp add: save_log_def)

lemma nth_save_log:
  "i < length logs \<Longrightarrow>
   save_log d logs ! i = (if log_id (logs ! i) = log_id d then d else logs ! i)"
  by (simp add: save_log_def)

text \<open>The rounded quotient in integer arithmetic.\<close>

lemma session_minutes_div:
  "session_minutes logout login = (logout - date_ms login + 30000) div 60000"
proof -
  have "(of_int (logout - date_ms login) :: rat) / 60000 + 1 / 2 =
        of_int (logout - date_ms login + 30000) / of_int 60000"
    by (simp add: field_simps)
  then show ?thesis
    unfolding session_minutes_def round_def by (simp only: floor_divide_of_int_eq)
qed

text \<open>The two outcomes of \<open>createLogoutLog\<close>.\<close>

lemma createLogoutLog_none:
  "filter (active_login uid tok) logs = [] \<Longrightarrow> createLogoutLog now uid tok logs = (None, logs)"
  by (simp add: createLogoutLog_def)

lemma createLogoutLog_some:
  assumes "filter (active_login uid tok) logs \<noteq> []"
  shows "\<exists>l\<in>set logs. active_login uid tok l \<and>
           (\<forall>m\<in>set logs. active_login uid tok m \<longrightarrow> createdAt m \<le> createdAt l) \<and>
           createLogoutLog now uid tok logs =
             (Some (l\<lparr>logoutTime := Some now,
                     sessionDuration := Some (session_minutes now (loginTime l)),
                     log_status := Logged_out, updatedAt := now\<rparr>),
              save_log (l\<lparr>logoutTime := Some now,
                     sessionDuration := Some (session_minutes now (loginTime l)),
                     log_status := Logged_out, updatedAt := now\<rparr>) logs)"
proof -
  from assms obtain l where l: "most_recent (filter (active_login uid tok) logs) = Some l"
    by (cases "most_recent (filter (active_login uid tok) logs)") (auto simp: most_recent_None)
  from most_recent_Some [OF l] have "l \<in> set logs" "active_login uid tok l"
    "\<forall>m\<in>set logs. active_login uid tok m \<longrightarrow> createdAt m \<le> createdAt l"
    by auto
  moreover from l have "createLogoutLog now uid tok logs =
             (Some (l\<lparr>logoutTime := Some now,
                     sessionDuration := Some (session_minutes now (loginTime l)),
                     log_status := Logged_out, updatedAt := now\<rparr>),
              save_log (l\<lparr>logoutTime := Some now,
                     sessionDuration := Some (session_minutes now (loginTime l)),
                     log_status := Logged_out, updatedAt := now\<rparr>) logs)"
    by (simp add: createLogoutLog_def Let_def)
  ultimately show ?thesis by blast
qed


text \<open>With distinct ids, one position of the collection changes and no other.\<close>

lemma createLogoutLog_others:
  assumes d: "distinct (map log_id logs)"
    and c: "fst (createLogoutLog now uid tok logs) = Some c"
  shows "\<exists>i<length logs. active_login uid tok (logs ! i) \<and>
           snd (createLogoutLog now uid tok logs) ! i = c \<and>
           (\<forall>j<length logs. j \<noteq> i \<longrightarrow> snd (createLogoutLog now uid tok logs) ! j = logs ! j)"
proof -
  have ne: "filter (active_login uid tok) logs \<noteq> []"
    using c createLogoutLog_none [of uid tok logs now] by (cases "filter (active_login uid tok) logs = []") auto
  from createLogoutLog_some [OF ne, of now] obtain l where
    l: "l \<in> set logs" "active_login uid tok l" and
    r: "createLogoutLog now uid tok logs =
             (Some (l\<lparr>logoutTime := Some now,
                     sessionDuration := Some (session_minutes now (loginTime l)),
                     log_status := Logged_out, updatedAt := now\<rparr>),
              save_log (l\<lparr>logoutTime := Some now,
                     sessionDuration := Some (session_minutes now (loginTime l)),
                     log_status := Logged_out, updatedAt := now\<rparr>) logs)"
    by blast
  from l(1) obtain i where i: "i < length logs" "logs ! i = l"
    by (auto simp: in_set_conv_nth)
  from r c have ceq: "c = l\<lparr>logoutTime := Some now,
                     sessionDuration := Some (session_minutes now (loginTime l)),
                     log_status := Logged_out, updatedAt := now\<rparr>"
    by simp
  have at_i: "snd (createLogoutLog now uid tok logs) ! i = c"
    using r ceq i by (simp add: nth_save_log)
  have others: "snd (createLogoutLog now uid tok logs) ! j = logs ! j"
    if j: "j < length logs" "j \<noteq> i" for j
  proof -
    from d j i have "log_id (logs ! j) \<noteq> log_id (logs ! i)"
      by (metis length_map nth_eq_iff_index_eq nth_map)
    then show ?thesis
      using r ceq i j by (simp add: nth_save_log)
  qed
  from i l at_i others show ?thesis by blast
qed

text \<open>
  When at most one open login matches, none matches after the call.
\<close>

lemma createLogoutLog_again:
  assumes "length (filter (active_login uid tok) logs) \<le> 1"
  shows "filter (active_login uid tok) (snd (createLogoutLog now uid tok logs)) = []"
proof (cases "filter (active_login uid tok) logs = []")
  case True
  then show ?thesis by (simp add: createLogoutLog_none)
next
  case False
  from createLogoutLog_some [OF False, of now] obtain l where
    l: "l \<in> set logs" "active_login uid tok l" and
    r: "snd (createLogoutLog now uid tok logs) =
          save_log (l\<lparr>logoutTime := Some now,
                     sessionDuration := Some (session_minutes now (loginTime l)),
                     log_status := Logged_out, updatedAt := now\<rparr>) logs"
    by force
  from assms obtain x where x: "filter (active_login uid tok) logs = [x]"
    using False by (cases "filter (active_login uid tok) logs") auto
  have only: "e = l" if "e \<in> set logs" "active_login uid tok e" for e
  proof -
    from that have "e \<in> set (filter (active_login uid tok) logs)" by simp
    moreover from l have "l \<in> set (filter (active_login uid tok) logs)" by simp
    ultimately show ?thesis using x by simp
  qed
  have "\<not> active_login uid tok e" if e: "e \<in> set (snd (createLogoutLog now uid tok logs))" for e
  proof
    assume a: "active_login uid tok e"
    from e r obtain e0 where e0: "e0 \<in> set logs"
      "e = (if log_id e0 = log_id l then l\<lparr>logoutTime := Some now,
                     sessionDuration := Some (session_minutes now (loginTime l)),
                     log_status := Logged_out, updatedAt := now\<rparr> else e0)"
      by (auto simp: save_log_def)
    show False
    proof (cases "log_id e0 = log_id l")
      case True
      with e0 a show False by (simp add: active_login_def)
    next
      case False
      with e0 have "e = e0" by simp
      with a e0 only have "e0 = l" by simp
      with False show False by simp
    qed
  qed
  then show ?thesis by (simp add: filter_empty_conv)
qed

text \<open>
  Claim C2: \<open>createLogoutLog\<close> (the spec's \<open>recordLogout\<close>) looks among the
  entries with the given subject and credential instance, action login and status
  active.
  \<^item> If there is none, it returns null and the collection is unchanged.
  \<^item> Otherwise it picks one whose \<open>createdAt\<close> is greatest among them, returns it
    with status \<open>logged_out\<close> and with \<open>logoutTime\<close> and the session duration
    stamped, and stores it in place: the collection keeps its length, and every entry
    of another id is as before.
  \<^item> When the ids of the collection are distinct, exactly one position changes; so an
    open entry of the same subject under another credential stays as it was.
  \<^item> When at most one open login matched, a second logout with the same subject and
    credential returns null and changes nothing, the closed entry included.
\<close>

theorem createLogoutLog_closes_most_recent:
  "(filter (active_login uid tok) logs = [] \<longrightarrow>
      createLogoutLog now uid tok logs = (None, logs)) \<and>
   (filter (active_login uid tok) logs \<noteq> [] \<longrightarrow>
      (\<exists>l\<in>set logs. active_login uid tok l \<and>
         (\<forall>m\<in>set logs. active_login uid tok m \<longrightarrow> createdAt m \<le> createdAt l) \<and>
         (let closed = l\<lparr>logoutTime := Some now,
                 sessionDuration := Some (session_minutes now (loginTime l)),
                 log_status := Logged_out, updatedAt := now\<rparr>
          in fst (createLogoutLog now uid tok logs) = Some closed \<and>
             length (snd (createLogoutLog now uid tok logs)) = length logs \<and>
             (\<forall>i<length logs. snd (createLogoutLog now uid tok logs) ! i =
                (if log_id (logs ! i) = log_id l then closed else logs ! i))))) \<and>
   (distinct (map log_id logs) \<and> fst (createLogoutLog now uid tok logs) = Some c \<longrightarrow>
      (\<exists>i<length logs. active_login uid tok (logs ! i) \<and>
         snd (createLogoutLog now uid tok logs) ! i = c \<and>
         (\<forall>j<length logs. j \<noteq> i \<longrightarrow>
            snd (createLogoutLog now uid tok logs) ! j = logs ! j))) \<and>
   (length (filter (active_login uid tok) logs) \<le> 1 \<longrightarrow>
      createLogoutLog now' uid tok (snd (createLogoutLog now uid tok logs)) =
        (None, snd (createLogoutLog now uid tok logs)))"
proof (intro conjI impI)
  assume "filter (active_login uid tok) logs = []"
  then show "createLogoutLog now uid tok logs = (None, logs)"
    by (rule createLogoutLog_none)
next
  assume ne: "filter (active_login uid tok) logs \<noteq> []"
  from createLogoutLog_some [OF ne, of now] obtain l where
    l: "l \<in> set logs" "active_login uid tok l"
      "\<forall>m\<in>set logs. active_login uid tok m \<longrightarrow> createdAt m \<le> createdAt l" and
    r: "createLogoutLog now uid tok logs =
             (Some (l\<lparr>logoutTime := Some now,
                     sessionDuration := Some (session_minutes now (loginTime l)),
                     log_status := Logged_out, updatedAt := now\<rparr>),
              save_log (l\<lparr>logoutTime := Some now,
                     sessionDuration := Some (session_minutes now (loginTime l)),
                     log_status := Logged_out, updatedAt := now\<rparr>) logs)"
    by blast
  show "\<exists>l\<in>set logs. active_login uid tok l \<and>
         (\<forall>m\<in>set logs. active_login uid tok m \<longrightarrow> createdAt m \<le> createdAt l) \<and>
         (let closed = l\<lparr>logoutTime := Some now,
                 sessionDuration := Some (session_minutes now (loginTime l)),
                 log_status := Logged_out, updatedAt := now\<rparr>
          in fst (createLogoutLog now uid tok logs) = Some closed \<and>
             length (snd (createLogoutLog now uid tok logs)) = length logs \<and>
             (\<forall>i<length logs. snd (createLogoutLog now uid tok logs) ! i =
                (if log_id (logs ! i) = log_id l then closed else logs ! i)))"
    using l r by (intro bexI [of _ l]) (simp_all add: Let_def length_save_log nth_save_log)
next
  assume "distinct (map log_id logs) \<and> fst (createLogoutLog now uid tok logs) = Some c"
  then show "\<exists>i<length logs. active_login uid tok (logs ! i) \<and>
         snd (createLogoutLog now uid tok logs) ! i = c \<and>
         (\<forall>j<length logs. j \<noteq> i \<longrightarrow>
            snd (createLogoutLog now uid tok logs) ! j = logs ! j)"
    using createLogoutLog_others by blast
next
  assume "length (filter (active_login uid tok) logs) \<le> 1"
  then have "filter (active_login uid tok) (snd (createLogoutLog now uid tok logs)) = []"
    by (rule createLogoutLog_again)
  then show "createLogoutLog now' uid tok (snd (createLogoutLog now uid tok logs)) =
        (None, snd (createLogoutLog now uid tok logs))"
    by (rule createLogoutLog_none)
qed

text \<open>The definitions of the example collection, for evaluation.\<close>

lemmas example_logs = two_devices_def login_c1_def login_c2_def

text \<open>
  Claim C2 on the two devices: a logout for an unknown credential \<open>c3\<close> does
  nothing; the logout of \<open>c1\<close> at two minutes closes the first entry and leaves the
  entry of \<open>c2\<close> active; a second logout of \<open>c1\<close> returns null and changes
  nothing.
\<close>

theorem createLogoutLog_closes_most_recent_witness:
  "filter (active_login 1 ''c3'') two_devices = [] \<and>
   createLogoutLog 120000 1 ''c3'' two_devices = (None, two_devices) \<and>
   filter (active_login 1 ''c1'') two_devices \<noteq> [] \<and>
   distinct (map log_id two_devices) \<and>
   length (filter (active_login 1 ''c1'') two_devices) \<le> 1 \<and>
   createLogoutLog 120000 1 ''c1'' two_devices =
     (Some (login_c1\<lparr>logoutTime := Some 120000, sessionDuration := Some 2,
              log_status := Logged_out, updatedAt := 120000\<rparr>),
      [login_c1\<lparr>logoutTime := Some 120000, sessionDuration := Some 2,
              log_status := Logged_out, updatedAt := 120000\<rparr>, login_c2]) \<and>
   log_status login_c2 = Active \<and>
   createLogoutLog 180000 1 ''c1''
       [login_c1\<lparr>logoutTime := Some 120000, sessionDuration := Some 2,
              log_status := Logged_out, updatedAt := 120000\<rparr>, login_c2] =
     (None, [login_c1\<lparr>logoutTime := Some 120000, sessionDuration := Some 2,
              log_status := Logged_out, updatedAt := 120000\<rparr>, login_c2])"
proof -
  let ?closed = "login_c1\<lparr>logoutTime := Some 120000, sessionDuration := Some 2,
              log_status := Logged_out, updatedAt := 120000\<rparr>"
  have h1: "filter (active_login 1 ''c3'') two_devices = []"
    by (simp add: example_logs active_login_def)
  have h2: "filter (active_login 1 ''c1'') two_devices \<noteq> []"
    by (simp add: example_logs active_login_def)
  have h3: "distinct (map log_id two_devices)"
    by (simp add: example_logs)
  have h4: "length (filter (active_login 1 ''c1'') two_devices) \<le> 1"
    by (simp add: example_logs active_login_def)
  have run: "createLogoutLog 120000 1 ''c1'' two_devices = (Some ?closed, [?closed, login_c2])"
    by (simp add: example_logs createLogoutLog_def active_login_def save_log_def
        session_minutes_div date_ms_def Let_def)
  note inst = createLogoutLog_closes_most_recent [of 1 _ two_devices 120000 ?closed 180000]
  from inst [of "''c3''"] h1
  have none: "createLogoutLog 120000 1 ''c3'' two_devices = (None, two_devices)"
    by blast
  from inst [of "''c1''"] h4
  have "createLogoutLog 180000 1 ''c1'' (snd (createLogoutLog 120000 1 ''c1'' two_devices)) =
        (None, snd (createLogoutLog 120000 1 ''c1'' two_devices))"
    by blast
  then have again: "createLogoutLog 180000 1 ''c1'' [?closed, login_c2] = (None, [?closed, login_c2])"
    by (simp only: run snd_conv)
  from inst [of "''c1''"] h3 run
  have "\<exists>i<length two_devices. active_login 1 ''c1'' (two_devices ! i) \<and>
         snd (createLogoutLog 120000 1 ''c1'' two_devices) ! i = ?closed \<and>
         (\<forall>j<length two_devices. j \<noteq> i \<longrightarrow>
            snd (createLogoutLog 120000 1 ''c1'' two_devices) ! j = two_devices ! j)"
    by simp
  have act: "log_status login_c2 = Active"
    by (simp add: example_logs)
  from h1 none h2 h3 h4 run act again show ?thesis
    by (intro conjI)
qed

subsection \<open>The session duration\<close>

text \<open>The duration is negative exactly when the logout is more than 30 s before the login.\<close>

lemma session_minutes_nonneg:
  "0 \<le> session_minutes logout login \<longleftrightarrow> date_ms login - 30000 \<le> logout"
proof -
  have "0 \<le> (logout - date_ms login + 30000) div 60000 \<longleftrightarrow>
        0 \<le> logout - date_ms login + 30000"
    by (rule pos_imp_zdiv_nonneg_iff) simp
  then show ?thesis
    unfolding session_minutes_div by linarith
qed

text \<open>
  Claim C4 says that the stored duration is \<open>max(0, round(...))\<close> and never
  negative. With the login of \<open>c2\<close> stamped at one minute and the logout at time 0,
  the stored duration is -1, where the claim's formula gives 0.
\<close>

theorem createLogoutLog_negative_duration:
  "createLogoutLog 0 1 ''c2'' two_devices =
     (Some (login_c2\<lparr>logoutTime := Some 0, sessionDuration := Some (- 1),
              log_status := Logged_out, updatedAt := 0\<rparr>),
      [login_c1, login_c2\<lparr>logoutTime := Some 0, sessionDuration := Some (- 1),
              log_status := Logged_out, updatedAt := 0\<rparr>]) \<and>
   loginTime login_c2 = Some 60000 \<and>
   max 0 (session_minutes 0 (Some 60000)) = 0"
  by (simp add: example_logs createLogoutLog_def active_login_def save_log_def
      session_minutes_div date_ms_def Let_def)

text \<open>
  Claim C4, amended: whenever \<open>createLogoutLog\<close> closes a session, the stamped
  \<open>logoutTime\<close> is the time of the call and the stamped duration is
  \<open>round((logoutTime - loginTime) / 60000)\<close>, a half rounding up, with no floor at
  0: it is non-negative exactly when \<open>logoutTime\<close> is at most 30 s before
  \<open>loginTime\<close>. In particular, when \<open>logoutTime\<close> does not precede
  \<open>loginTime\<close> the duration equals \<open>max(0, round(...))\<close>.
\<close>

theorem createLogoutLog_duration:
  assumes "fst (createLogoutLog now uid tok logs) = Some c"
  shows "logoutTime c = Some now \<and>
     sessionDuration c =
       Some (round ((of_int (now - date_ms (loginTime c)) :: rat) / 60000)) \<and>
     (0 \<le> round ((of_int (now - date_ms (loginTime c)) :: rat) / 60000) \<longleftrightarrow>
        date_ms (loginTime c) - 30000 \<le> now) \<and>
     (date_ms (loginTime c) \<le> now \<longrightarrow>
        sessionDuration c =
          Some (max 0 (round ((of_int (now - date_ms (loginTime c)) :: rat) / 60000))))"
proof -
  have ne: "filter (active_login uid tok) logs \<noteq> []"
    using assms createLogoutLog_none [of uid tok logs now]
    by (cases "filter (active_login uid tok) logs = []") auto
  from createLogoutLog_some [OF ne, of now] assms obtain l where
    c: "c = l\<lparr>logoutTime := Some now,
                     sessionDuration := Some (session_minutes now (loginTime l)),
                     log_status := Logged_out, updatedAt := now\<rparr>"
    by auto
  have m: "session_minutes now (loginTime c) =
        round ((of_int (now - date_ms (loginTime c)) :: rat) / 60000)"
    by (simp add: session_minutes_def)
  have lt: "loginTime c = loginTime l" by (simp add: c)
  have d: "sessionDuration c = Some (session_minutes now (loginTime c))"
    by (simp add: c)
  have n: "0 \<le> session_minutes now (loginTime c) \<longleftrightarrow> date_ms (loginTime c) - 30000 \<le> now"
    by (rule session_minutes_nonneg)
  have "logoutTime c = Some now" by (simp add: c)
  moreover have "date_ms (loginTime c) \<le> now \<longrightarrow>
      sessionDuration c = Some (max 0 (session_minutes now (loginTime c)))"
    using d n by (simp add: max_def)
  ultimately show ?thesis
    using d n unfolding m by simp
qed

text \<open>
  The amended C4 on the two devices: login at 0, logout at two and a half minutes, a
  duration of 3.
\<close>

theorem createLogoutLog_duration_witness:
  "fst (createLogoutLog 150000 1 ''c1'' two_devices) =
     Some (login_c1\<lparr>logoutTime := Some 150000, sessionDuration := Some 3,
              log_status := Logged_out, updatedAt := 150000\<rparr>) \<and>
   round ((of_int (150000 - date_ms (Some 0)) :: rat) / 60000) = 3 \<and>
   date_ms (Some 0) \<le> (150000 :: int) \<and>
   Some (3 :: int) = Some (max 0 (round ((of_int (150000 - date_ms (Some 0)) :: rat) / 60000)))"
proof -
  let ?c = "login_c1\<lparr>logoutTime := Some 150000, sessionDuration := Some 3,
              log_status := Logged_out, updatedAt := 150000\<rparr>"
  have h: "fst (createLogoutLog 150000 1 ''c1'' two_devices) = Some ?c"
    by (simp add: example_logs createLogoutLog_def active_login_def save_log_def
        session_minutes_div date_ms_def Let_def)
  have lt: "loginTime ?c = Some 0" and sd: "sessionDuration ?c = Some 3"
    by (simp_all add: login_c1_def)
  have le: "date_ms (Some 0) \<le> (150000 :: int)"
    by (simp add: date_ms_def)
  from createLogoutLog_duration [OF h]
  have "Some (3::int) = Some (round ((of_int (150000 - date_ms (Some 0)) :: rat) / 60000))"
    and "date_ms (Some 0) \<le> (150000::int) \<longrightarrow>
      Some (3::int) = Some (max 0 (round ((of_int (150000 - date_ms (Some 0)) :: rat) / 60000)))"
    unfolding lt sd by blast+
  with h le show ?thesis by simp
qed

subsection \<open>Expiring a credential\<close>

text \<open>After the call no active entry of the credential is left.\<close>

lemma markTokenExpired_again:
  "filter (active_token tok) (snd (markTokenExpired now tok logs)) = []"
  by (induction logs) (simp_all add: markTokenExpired_def active_token_def)

text \<open>
  Claim C7: \<open>markTokenExpired\<close> (the spec's \<open>expireByCredential\<close>) keeps the
  length of the collection and reports the number of active entries of the
  credential. An entry of that credential with status active gets status
  \<open>expired\<close> (and the \<open>updatedAt\<close> of the call) and is otherwise as before;
  every other entry is unchanged; no entry's \<open>logoutTime\<close> or session duration
  changes. Running it again, at any time, modifies no entry and leaves the collection
  as it is.
\<close>

theorem markTokenExpired_spec:
  "length (snd (markTokenExpired now tok logs)) = length logs \<and>
   fst (markTokenExpired now tok logs) = length (filter (active_token tok) logs) \<and>
   (\<forall>i<length logs.
      (active_token tok (logs ! i) \<longrightarrow>
         snd (markTokenExpired now tok logs) ! i =
           (logs ! i)\<lparr>log_status := Expired, updatedAt := now\<rparr>) \<and>
      (\<not> active_token tok (logs ! i) \<longrightarrow>
         snd (markTokenExpired now tok logs) ! i = logs ! i) \<and>
      logoutTime (snd (markTokenExpired now tok logs) ! i) = logoutTime (logs ! i) \<and>
      sessionDuration (snd (markTokenExpired now tok logs) ! i) = sessionDuration (logs ! i)) \<and>
   markTokenExpired now' tok (snd (markTokenExpired now tok logs)) =
     (0, snd (markTokenExpired now tok logs))"
proof -
  have "map (\<lambda>l. if active_token tok l then l\<lparr>log_status := Expired, updatedAt := now'\<rparr> else l)
          (snd (markTokenExpired now tok logs)) = snd (markTokenExpired now tok logs)"
    by (induction logs) (simp_all add: markTokenExpired_def active_token_def)
  then have "markTokenExpired now' tok (snd (markTokenExpired now tok logs)) =
     (0, snd (markTokenExpired now tok logs))"
    using markTokenExpired_again [of tok now logs]
    by (simp add: markTokenExpired_def [of now' tok])
  then show ?thesis
    by (simp add: markTokenExpired_def [of now tok logs])
qed

text \<open>
  Claim C7 on the two devices: expiring \<open>c1\<close> changes the first entry only, stamps
  neither \<open>logoutTime\<close> nor a duration, and a second run changes nothing.
\<close>

theorem markTokenExpired_spec_witness:
  "markTokenExpired 90000 ''c1'' two_devices =
     (1, [login_c1\<lparr>log_status := Expired, updatedAt := 90000\<rparr>, login_c2]) \<and>
   active_token ''c1'' (two_devices ! 0) \<and> \<not> active_token ''c1'' (two_devices ! 1) \<and>
   logoutTime (snd (markTokenExpired 90000 ''c1'' two_devices) ! 0) = None \<and>
   sessionDuration (snd (markTokenExpired 90000 ''c1'' two_devices) ! 0) = None \<and>
   markTokenExpired 95000 ''c1'' (snd (markTokenExpired 90000 ''c1'' two_devices)) =
     (0, [login_c1\<lparr>log_status := Expired, updatedAt := 90000\<rparr>, login_c2])"
proof -
  have a0: "active_token ''c1'' (two_devices ! 0)"
    and a1: "\<not> active_token ''c1'' (two_devices ! 1)"
    and len: "length two_devices = 2"
    and fl: "length (filter (active_token ''c1'') two_devices) = 1"
    and old: "logoutTime (two_devices ! 0) = None" "sessionDuration (two_devices ! 0) = None"
      "two_devices ! 0 = login_c1" "two_devices ! 1 = login_c2" 
    by (simp_all add: example_logs active_token_def)
  note inst = markTokenExpired_spec [of 90000 "''c1''" two_devices 95000]
  from inst len have l2: "length (snd (markTokenExpired 90000 ''c1'' two_devices)) = 2"
    by simp
  from inst fl have n: "fst (markTokenExpired 90000 ''c1'' two_devices) = 1"
    by simp
  from inst len a0 old
  have e0: "snd (markTokenExpired 90000 ''c1'' two_devices) ! 0 =
      login_c1\<lparr>log_status := Expired, updatedAt := 90000\<rparr>"
    and f0: "logoutTime (snd (markTokenExpired 90000 ''c1'' two_devices) ! 0) = None"
      "sessionDuration (snd (markTokenExpired 90000 ''c1'' two_devices) ! 0) = None"
    by auto
  from inst len a1 old
  have e1: "snd (markTokenExpired 90000 ''c1'' two_devices) ! 1 = login_c2"
    by auto
  from l2 e0 e1 have s: "snd (markTokenExpired 90000 ''c1'' two_devices) =
      [login_c1\<lparr>log_status := Expired, updatedAt := 90000\<rparr>, login_c2]"
    by (auto simp: list_eq_iff_nth_eq less_Suc_eq numeral_2_eq_2)
  from inst have i: "markTokenExpired 95000 ''c1'' (snd (markTokenExpired 90000 ''c1'' two_devices)) =
     (0, snd (markTokenExpired 90000 ''c1'' two_devices))"
    by blast
  have "markTokenExpired 90000 ''c1'' two_devices =
     (1, [login_c1\<lparr>log_status := Expired, updatedAt := 90000\<rparr>, login_c2])"
    using n s by (simp add: prod_eq_iff)
  with a0 a1 f0 i s show ?thesis by simp
qed

section \<open>Properties of the admin routes\<close>

subsection \<open>Bulk delete\<close>

text \<open>What the two kinds of query select.\<close>

lemma matches_no_filters: "matches rx (build_query no_filters) l"
  by (simp add: matches_def build_query_def no_filters_def empty_query_def given_def)

lemma matches_ids: "matches rx (empty_query\<lparr>q_ids := Some xs\<rparr>) = (\<lambda>l. log_id l \<in> set xs)"
  by (rule ext) (simp add: matches_def empty_query_def)

text \<open>Deleting by ids.\<close>

lemma deleteMany_ids:
  "deleteMany rx (empty_query\<lparr>q_ids := Some xs\<rparr>) logs =
     (length (filter (\<lambda>l. log_id l \<in> set xs) logs), filter (\<lambda>l. log_id l \<notin> set xs) logs)"
  by (simp add: deleteMany_def matches_ids)

text \<open>
  Claim C8 says that a request supplying both ids and filters fails and deletes
  nothing. On the two devices, the request with \<open>ids = [1]\<close> and the filter
  \<open>action = logout\<close> succeeds: it deletes entry 1, which is a login, and reports
  one deletion.
\<close>

theorem delete_user_logs_both_supplied:
  "delete_user_logs contains_ci
     \<lparr>ids = Some [1], filters = Some (no_filters\<lparr>f_action := Some ''logout''\<rparr>)\<rparr> two_devices =
   (Inr 1, [login_c2])"
  by (simp add: delete_user_logs_def deleteMany_def matches_ids example_logs Let_def)

text \<open>
  Claim C8, amended: a bulk delete that supplies neither ids nor filters, or an empty
  ids array and no filters, fails with status 400 (\<open>InvalidRequest\<close>) and deletes
  nothing. A request that supplies a non-empty ids array is accepted whatever its
  filters are: it deletes exactly the entries whose id is in the array and reports
  their number.
\<close>

theorem delete_user_logs_needs_ids_or_filters:
  "delete_user_logs rx \<lparr>ids = None, filters = None\<rparr> logs = (Inl IdsOrFiltersRequired, logs) \<and>
   delete_user_logs rx \<lparr>ids = Some [], filters = None\<rparr> logs = (Inl IdsOrFiltersRequired, logs) \<and>
   delete_user_logs rx \<lparr>ids = Some (x # xs), filters = fs\<rparr> logs =
     (Inr (length (filter (\<lambda>l. log_id l \<in> set (x # xs)) logs)),
      filter (\<lambda>l. log_id l \<notin> set (x # xs)) logs)"
  by (simp add: delete_user_logs_def deleteMany_ids Let_def)

text \<open>
  Claim C10: a bulk delete that supplies no ids (or an empty ids array) and a filters
  object with none of the recognised fields builds the empty query: it deletes every
  entry of the collection and reports the number of entries as \<open>deletedCount\<close>.
\<close>

theorem delete_user_logs_empty_filters:
  "delete_user_logs rx \<lparr>ids = None, filters = Some no_filters\<rparr> logs = (Inr (length logs), []) \<and>
   delete_user_logs rx \<lparr>ids = Some [], filters = Some no_filters\<rparr> logs = (Inr (length logs), [])"
  by (simp add: delete_user_logs_def deleteMany_def matches_no_filters Let_def)

subsection \<open>Listing with pagination\<close>

text \<open>For a positive page size, \<open>pageNum < totalPages\<close> says that entries remain.\<close>

lemma less_ceil_div:
  assumes "1 \<le> l"
  shows "less_js p (ceil_div n l) \<longleftrightarrow> p * l < int n"
proof -
  from assms have pos: "(0::rat) < of_int l" by simp
  have "less_js p (ceil_div n l) \<longleftrightarrow> p < \<lceil>(of_nat n :: rat) / of_int l\<rceil>"
    using assms by (simp add: ceil_div_def)
  also have "\<dots> \<longleftrightarrow> (of_int p :: rat) < of_nat n / of_int l"
    by (rule less_ceiling_iff)
  also have "\<dots> \<longleftrightarrow> (of_int p :: rat) * of_int l < of_nat n"
    using pos by (simp add: pos_less_divide_eq)
  also have "\<dots> \<longleftrightarrow> (of_int (p * l) :: rat) < of_int (int n)"
    by simp
  also have "\<dots> \<longleftrightarrow> p * l < int n"
    by (rule of_int_less_iff)
  finally show ?thesis .
qed

text \<open>The page: its size and where its documents come from.\<close>

lemma length_find_page:
  assumes "0 \<le> skip" and "1 \<le> l"
  shows "int (length (find_page key desc skip l found)) =
         min l (max 0 (int (length found) - skip))"
  using assms by (auto simp: find_page_def Let_def)

lemma set_find_page: "set (find_page key desc skip l found) \<subseteq> set found"
proof -
  have td: "set (take m (drop n ys)) \<subseteq> set ys" for m n and ys :: "userLog list"
    by (meson in_set_dropD in_set_takeD subsetI)
  have d: "set (drop n ys) \<subseteq> set ys" for n and ys :: "userLog list"
    by (rule set_drop_subset)
  show ?thesis
  proof (cases desc)
    case True
    then show ?thesis
      using td [of _ _ "rev (sort_key key found)"] d [of _ "rev (sort_key key found)"]
      by (simp add: find_page_def Let_def)
  next
    case False
    then show ?thesis
      using td [of _ _ "sort_key key found"] d [of _ "sort_key key found"]
      by (simp add: find_page_def Let_def)
  qed
qed

text \<open>Three pages of 20 hold 45 entries.\<close>

lemma ceil_45_20: "\<lceil>(of_nat 45 :: rat) / of_int 20\<rceil> = 3"
  by (simp add: ceiling_eq_iff)


text \<open>For a page and a page size of at least 1 the handler answers.\<close>

lemma get_user_logs_ok:
  assumes "1 \<le> page" and "1 \<le> pageSize"
  shows "get_user_logs rx key desc page pageSize f logs =
    Inr \<lparr>resp_data = find_page key desc ((page - 1) * pageSize) pageSize
                        (filter (matches rx (build_query f)) logs),
         resp_pagination = \<lparr>currentPage = page,
           totalPages = ceil_div (length (filter (matches rx (build_query f)) logs)) pageSize,
           totalCount = length (filter (matches rx (build_query f)) logs), limit = pageSize,
           hasNextPage = less_js page
             (ceil_div (length (filter (matches rx (build_query f)) logs)) pageSize),
           hasPrevPage = (1 < page)\<rparr>\<rparr>"
proof -
  from assms have "0 \<le> (page - 1) * pageSize" by simp
  then have "\<not> (page - 1) * pageSize < 0" by simp
  then show ?thesis
    by (simp add: get_user_logs_def Let_def)
qed

text \<open>
  Claim C9: for a 1-based page and a page size of at least 1, the list route answers
  with the count of the matching entries as \<open>totalCount\<close>, with
  \<open>totalPages = ceil(totalCount / pageSize)\<close>, with \<open>hasNextPage\<close> true iff
  \<open>page * pageSize < totalCount\<close> and \<open>hasPrevPage\<close> true iff \<open>page > 1\<close>.
  The page holds matching entries only, as many as are left after the earlier pages,
  at most \<open>pageSize\<close>. In particular, with a page size of 20 over 45 matching
  entries there are 3 pages, page 3 has 5 items and no next page, and page 1 has no
  previous page.
\<close>

theorem get_user_logs_pagination:
  assumes "1 \<le> page" and "1 \<le> pageSize"
  shows "\<exists>resp. get_user_logs rx key desc page pageSize f logs = Inr resp \<and>
     totalCount (resp_pagination resp) = length (filter (matches rx (build_query f)) logs) \<and>
     totalPages (resp_pagination resp) =
       Fin \<lceil>(of_nat (totalCount (resp_pagination resp)) :: rat) / of_int pageSize\<rceil> \<and>
     hasNextPage (resp_pagination resp) =
       (page * pageSize < int (totalCount (resp_pagination resp))) \<and>
     hasPrevPage (resp_pagination resp) = (1 < page) \<and>
     set (resp_data resp) \<subseteq> set (filter (matches rx (build_query f)) logs) \<and>
     int (length (resp_data resp)) =
       min pageSize (max 0 (int (totalCount (resp_pagination resp)) - (page - 1) * pageSize)) \<and>
     (pageSize = 20 \<and> totalCount (resp_pagination resp) = 45 \<longrightarrow>
        totalPages (resp_pagination resp) = Fin 3 \<and>
        (page = 3 \<longrightarrow> length (resp_data resp) = 5 \<and> \<not> hasNextPage (resp_pagination resp)) \<and>
        (page = 1 \<longrightarrow> \<not> hasPrevPage (resp_pagination resp)))"
proof -
  let ?found = "filter (matches rx (build_query f)) logs"
  let ?n = "length ?found"
  let ?data = "find_page key desc ((page - 1) * pageSize) pageSize ?found"
  let ?resp = "\<lparr>resp_data = ?data,
         resp_pagination = \<lparr>currentPage = page, totalPages = ceil_div ?n pageSize,
           totalCount = ?n, limit = pageSize,
           hasNextPage = less_js page (ceil_div ?n pageSize),
           hasPrevPage = (1 < page)\<rparr>\<rparr>"
  have run: "get_user_logs rx key desc page pageSize f logs = Inr ?resp"
    using assms by (rule get_user_logs_ok)
  from assms have skip: "0 \<le> (page - 1) * pageSize" by simp
  have pages: "ceil_div ?n pageSize = Fin \<lceil>(of_nat ?n :: rat) / of_int pageSize\<rceil>"
    using assms by (simp add: ceil_div_def)
  have nxt: "less_js page (ceil_div ?n pageSize) = (page * pageSize < int ?n)"
    using assms(2) by (rule less_ceil_div)
  have sub: "set ?data \<subseteq> set ?found"
    by (rule set_find_page)
  have len: "int (length ?data) = min pageSize (max 0 (int ?n - (page - 1) * pageSize))"
    using skip assms(2) by (rule length_find_page)
  have special: "ceil_div ?n pageSize = Fin 3 \<and>
        (page = 3 \<longrightarrow> length ?data = 5 \<and> \<not> less_js page (ceil_div ?n pageSize)) \<and>
        (page = 1 \<longrightarrow> \<not> 1 < page)"
    if "pageSize = 20" "?n = 45"
  proof -
    from that have "ceil_div ?n pageSize = Fin \<lceil>(of_nat 45 :: rat) / of_int 20\<rceil>"
      using pages by simp
    then have three: "ceil_div ?n pageSize = Fin 3"
      by (simp only: ceil_45_20)
    have "length ?data = 5" if "page = 3"
      using len that \<open>pageSize = 20\<close> \<open>?n = 45\<close> by simp
    moreover have "\<not> less_js page (ceil_div ?n pageSize)" if "page = 3"
      using that three by simp
    ultimately show ?thesis using three by simp
  qed
  show ?thesis
    using run pages nxt sub len special
    by (intro exI [of _ ?resp]) simp
qed

text \<open>Without filters all 45 documents of the example match.\<close>

lemma length_forty_five:
  "length (filter (matches rx (build_query no_filters)) forty_five) = 45"
  by (simp add: matches_no_filters forty_five_def)

text \<open>
  Claim C9 on the collection of 45 documents with a page size of 20: page 3 and page 1.
\<close>

theorem get_user_logs_pagination_witness:
  "(\<exists>resp. get_user_logs contains_ci createdAt True 3 20 no_filters forty_five = Inr resp \<and>
      totalCount (resp_pagination resp) = 45 \<and> totalPages (resp_pagination resp) = Fin 3 \<and>
      length (resp_data resp) = 5 \<and> \<not> hasNextPage (resp_pagination resp) \<and>
      hasPrevPage (resp_pagination resp)) \<and>
   (\<exists>resp. get_user_logs contains_ci createdAt True 1 20 no_filters forty_five = Inr resp \<and>
      totalCount (resp_pagination resp) = 45 \<and> totalPages (resp_pagination resp) = Fin 3 \<and>
      length (resp_data resp) = 20 \<and> hasNextPage (resp_pagination resp) \<and>
      \<not> hasPrevPage (resp_pagination resp))"
proof -
  have p3: "(1::int) \<le> 3" and p1: "(1::int) \<le> 1" and s: "(1::int) \<le> 20"
    by simp_all
  from get_user_logs_pagination [OF p3 s, of contains_ci createdAt True no_filters forty_five]
  have third: "\<exists>resp. get_user_logs contains_ci createdAt True 3 20 no_filters forty_five = Inr resp \<and>
      totalCount (resp_pagination resp) = 45 \<and> totalPages (resp_pagination resp) = Fin 3 \<and>
      length (resp_data resp) = 5 \<and> \<not> hasNextPage (resp_pagination resp) \<and>
      hasPrevPage (resp_pagination resp)"
    unfolding length_forty_five by auto
  from get_user_logs_pagination [OF p1 s, of contains_ci createdAt True no_filters forty_five]
  have first: "\<exists>resp. get_user_logs contains_ci createdAt True 1 20 no_filters forty_five = Inr resp \<and>
      totalCount (resp_pagination resp) = 45 \<and> totalPages (resp_pagination resp) = Fin 3 \<and>
      length (resp_data resp) = 20 \<and> hasNextPage (resp_pagination resp) \<and>
      \<not> hasPrevPage (resp_pagination resp)"
    unfolding length_forty_five by auto
  from third first show ?thesis by (rule conjI)
qed

end
